theory Spec2Isabelle
  imports Complex_Main "HOL-Library.Word"
begin

section \<open>Strings and values of the runtime\<close>

text \<open>
  The server is a JavaScript program. Its strings are sequences of 16-bit code units,
  and the values it handles are the values of JSON together with \<open>undefined\<close>,
  which a read of an absent property or array element yields. Numbers are modelled by
  their exact decimal value.
\<close>

type_synonym js_string = "16 word list"

definition js :: "string \<Rightarrow> js_string" where
  "js s = map (\<lambda>c. of_nat (of_char c)) s"

datatype js_value =
    JUndefined
  | JNull
  | JBool bool
  | JNum rat
  | JStr js_string
  | JArr "js_value list"
  | JObj "(js_string \<times> js_value) list"

text \<open>
  Values that are thrown. \<open>Api_error\<close> is the rejection of a call to an external
  service (completion service, credential lookup, spreadsheet) with the \<open>status\<close>
  and \<open>message\<close> properties it carries; \<open>Type_error\<close> and \<open>Syntax_error\<close>
  are raised by the runtime; \<open>Exhausted\<close> is the error constructed after the retry
  loop, \<open>new Error("Gemini API exhausted or returned invalid JSON.")\<close>.
\<close>

datatype js_error =
    Api_error "int option" js_string
  | Type_error
  | Syntax_error
  | Exhausted

fun error_status :: "js_error \<Rightarrow> int option" where
  "error_status (Api_error s m) = s"
| "error_status Type_error = None"
| "error_status Syntax_error = None"
| "error_status Exhausted = None"

text \<open>Conversion to boolean, as \<open>!v\<close> and \<open>v || w\<close> perform it.\<close>

fun truthy :: "js_value \<Rightarrow> bool" where
  "truthy JUndefined = False"
| "truthy JNull = False"
| "truthy (JBool b) = b"
| "truthy (JNum n) = (n \<noteq> 0)"
| "truthy (JStr s) = (s \<noteq> [])"
| "truthy (JArr vs) = True"
| "truthy (JObj kvs) = True"

definition nullish :: "js_value \<Rightarrow> bool" where
  "nullish v = (v = JUndefined \<or> v = JNull)"

text \<open>
  The property read \<open>v.k\<close> on a value that is neither \<open>null\<close> nor
  \<open>undefined\<close>, for the property names this program reads (\<open>message\<close>,
  \<open>items\<close>, \<open>item\<close>, \<open>quantity\<close>, \<open>unit\<close>, \<open>price\<close>,
  \<open>total_price\<close>, \<open>customer_name\<close>, \<open>payment_mode\<close>): none of them is a
  property of a built-in prototype, so a string, number, boolean or array has none of
  them. On \<open>null\<close> and \<open>undefined\<close> the read throws a TypeError, which the
  callers model where they read from a value that may be \<open>nullish\<close>.
\<close>

fun property :: "js_value \<Rightarrow> js_string \<Rightarrow> js_value" where
  "property (JObj kvs) k = (case map_of kvs k of None \<Rightarrow> JUndefined | Some v \<Rightarrow> v)"
| "property v k = JUndefined"

fun isArray :: "js_value \<Rightarrow> bool" where
  "isArray (JArr vs) = True"
| "isArray v = False"

fun elements :: "js_value \<Rightarrow> js_value list" where
  "elements (JArr vs) = vs"
| "elements v = []"

text \<open>
  A template literal converts the interpolated value to a string. For a value that
  came from JSON the conversion throws a TypeError exactly when it reaches an object
  with an own property \<open>toString\<close> (which hides the inherited method and is not
  callable); an array converts its elements, taking \<open>null\<close> for the empty string.
\<close>

fun throws_on_ToString :: "js_value \<Rightarrow> bool" where
  "throws_on_ToString (JObj kvs) = (js ''toString'' \<in> fst ` set kvs)"
| "throws_on_ToString (JArr vs) = (\<exists>v \<in> set vs. throws_on_ToString v)"
| "throws_on_ToString v = False"

section \<open>Cleansing of the completion text\<close>

text \<open>\<open>String.prototype.trim\<close> removes WhiteSpace and LineTerminator code units.\<close>

definition is_space :: "16 word \<Rightarrow> bool" where
  "is_space c \<longleftrightarrow>
     c \<in> {0x9, 0xA, 0xB, 0xC, 0xD, 0x20, 0xA0, 0x1680, 0x2028, 0x2029, 0x202F, 0x205F,
          0x3000, 0xFEFF}
     \<or> (0x2000 \<le> c \<and> c \<le> 0x200A)"

definition trim :: "js_string \<Rightarrow> js_string" where
  "trim s = rev (dropWhile is_space (rev (dropWhile is_space s)))"

text \<open>
  \<open>s.replace(/pat/g, "")\<close> for a literal pattern: one pass from the left, each
  match removed and the scan resumed behind it.
\<close>

function remove_all :: "'a list \<Rightarrow> 'a list \<Rightarrow> 'a list" where
  "remove_all pat [] = []"
| "remove_all pat (x # xs) =
     (if pat \<noteq> [] \<and> take (length pat) (x # xs) = pat
      then remove_all pat (drop (length pat) (x # xs))
      else x # remove_all pat xs)"
  by pat_completeness auto
termination
  by (relation "measure (\<lambda>(pat, xs). length xs)") auto

text \<open>\<open>occurs pat xs\<close>: the pattern stands somewhere in \<open>xs\<close> as a contiguous piece.\<close>

fun occurs :: "'a list \<Rightarrow> 'a list \<Rightarrow> bool" where
  "occurs pat [] = (pat = [])"
| "occurs pat (x # xs) = (take (length pat) (x # xs) = pat \<or> occurs pat xs)"

definition lbrace :: "16 word" where "lbrace = 0x7B"
definition rbrace :: "16 word" where "rbrace = 0x7D"

text \<open>
  \<open>text.match(/\{[\s\S]*\}/)\<close>: the leftmost \<open>{\<close> and, the star being greedy
  over every code unit, the last \<open>}\<close> behind it; no match when no \<open>}\<close>
  follows the first \<open>{\<close>.
\<close>

definition jsonMatch :: "js_string \<Rightarrow> js_string option" where
  "jsonMatch text =
     (case dropWhile (\<lambda>c. c \<noteq> lbrace) text of
        [] \<Rightarrow> None
      | b # rest \<Rightarrow>
          (if rbrace \<in> set rest
           then Some (b # rev (dropWhile (\<lambda>c. c \<noteq> rbrace) (rev rest)))
           else None))"

definition fence :: js_string where
  "fence = js ''```''"

definition fence_json :: js_string where
  "fence_json = js ''```json''"

definition strip_fences :: "js_string \<Rightarrow> js_string" where
  "strip_fences raw = trim (remove_all fence (remove_all fence_json (trim raw)))"

definition cleanJson :: "js_string \<Rightarrow> js_string" where
  "cleanJson raw =
     (let text = strip_fences raw
      in case jsonMatch text of Some m \<Rightarrow> m | None \<Rightarrow> text)"

section \<open>The extractor\<close>

text \<open>
  The completion service is outside the program: a call either resolves, and the
  program reads \<open>response.candidates[0].content.parts[0].text\<close> (\<open>None\<close> when the
  response has no string there, which makes the read or \<open>trim\<close> throw a TypeError),
  or rejects with an error. Within one request the prompt is fixed, so the service is
  given by the outcome of its n-th call of the request, counted from 0.

  The observable effects of a request are recorded in order. Writes to the console are
  not modelled.
\<close>

datatype reply = Resolves "js_string option" | Rejects js_error

datatype event =
    Generate
  | Sleep nat
  | GetClient
  | Append "js_value list list"
  | GetValues

definition calls :: "event list \<Rightarrow> nat" where
  "calls tr = length (filter (\<lambda>e. e = Generate) tr)"

text \<open>
  The body of the \<open>try\<close> block for one outcome of the service. \<open>JSON.parse\<close> is
  the runtime's; the extractor is modelled for an arbitrary parser, \<open>None\<close> being
  the SyntaxError that \<open>JSON.parse\<close> throws.
\<close>

definition attempt :: "(js_string \<Rightarrow> js_value option) \<Rightarrow> reply \<Rightarrow> js_error + js_value" where
  "attempt parse r =
     (case r of
        Rejects e \<Rightarrow> Inl e
      | Resolves None \<Rightarrow> Inl Type_error
      | Resolves (Some raw) \<Rightarrow>
          (case parse (cleanJson raw) of
             None \<Rightarrow> Inl Syntax_error
           | Some v \<Rightarrow> Inr v))"

text \<open>
  The loop \<open>while (attempts < 3)\<close>: a result is returned, an error whose
  \<open>status\<close> is 429 is followed by a pause of 5000 ms and \<open>attempts++\<close>, any other
  error is thrown again. Behind the loop \<open>Exhausted\<close> is thrown.
\<close>

function extract_loop ::
  "(js_string \<Rightarrow> js_value option) \<Rightarrow> (nat \<Rightarrow> reply) \<Rightarrow> nat \<Rightarrow> event list
     \<Rightarrow> (js_error + js_value) \<times> event list" where
  "extract_loop parse svc attempts tr =
     (if attempts < 3 then
        (case attempt parse (svc (calls tr)) of
           Inr v \<Rightarrow> (Inr v, tr @ [Generate])
         | Inl e \<Rightarrow>
             (if error_status e = Some 429
              then extract_loop parse svc (attempts + 1) (tr @ [Generate, Sleep 5000])
              else (Inl e, tr @ [Generate])))
      else (Inl Exhausted, tr))"
  by pat_completeness auto
termination
  by (relation "measure (\<lambda>(parse, svc, attempts, tr). 3 - attempts)") auto

declare extract_loop.simps [simp del]

text \<open>The rate-limit signal: the call rejects with an error whose \<open>status\<close> is 429.\<close>

definition rate_limited :: "reply \<Rightarrow> bool" where
  "rate_limited r = (case r of Rejects e \<Rightarrow> error_status e = Some 429 | Resolves t \<Rightarrow> False)"

definition extractOrder ::
  "(js_string \<Rightarrow> js_value option) \<Rightarrow> (nat \<Rightarrow> reply) \<Rightarrow> js_value
     \<Rightarrow> (js_error + js_value) \<times> event list" where
  "extractOrder parse svc message =
     (if throws_on_ToString message then (Inl Type_error, [])
      else extract_loop parse svc 0 [])"

section \<open>A model of \<open>JSON.parse\<close>\<close>

text \<open>
  Where a concrete completion text is evaluated, \<open>JSON.parse\<close> is modelled after
  the JSON grammar: a lexer that reads one code unit at a time, and a parser that
  reads one token at a time and keeps the enclosing arrays and objects on a stack.
\<close>

datatype token =
    LBrace | RBrace | LBrack | RBrack | Colon | Comma
  | TStr js_string | TNum rat | TTrue | TFalse | TNull

definition is_digit :: "16 word \<Rightarrow> bool" where
  "is_digit c \<longleftrightarrow> 0x30 \<le> c \<and> c \<le> 0x39"

definition decimal :: "js_string \<Rightarrow> nat" where
  "decimal ds = foldl (\<lambda>n c. 10 * n + (unat c - 48)) 0 ds"

definition hex_val :: "16 word \<Rightarrow> nat option" where
  "hex_val c =
     (if is_digit c then Some (unat c - 48)
      else if 0x61 \<le> c \<and> c \<le> 0x66 then Some (unat c - 87)
      else if 0x41 \<le> c \<and> c \<le> 0x46 then Some (unat c - 55)
      else None)"

text \<open>
  A number is \<open>-? (0 | [1-9][0-9]*) (. [0-9]+)? ([eE] [+-]? [0-9]+)?\<close>. The three
  helpers split off the sign, the fraction and the exponent.
\<close>

definition signed :: "js_string \<Rightarrow> bool \<times> js_string" where
  "signed s =
     (case s of
        [] \<Rightarrow> (False, [])
      | c # r \<Rightarrow> if c = 0x2D then (True, r) else if c = 0x2B then (False, r) else (False, s))"

definition fraction :: "js_string \<Rightarrow> (js_string \<times> js_string) option" where
  "fraction s =
     (case s of
        [] \<Rightarrow> Some ([], [])
      | c # r \<Rightarrow>
          if c = 0x2E
          then (if takeWhile is_digit r = [] then None
                else Some (takeWhile is_digit r, dropWhile is_digit r))
          else Some ([], s))"

definition exponent :: "js_string \<Rightarrow> int option" where
  "exponent s =
     (case s of
        [] \<Rightarrow> Some 0
      | c # r \<Rightarrow>
          if c = 0x65 \<or> c = 0x45
          then (let (neg, ds) = signed r
                in if ds \<noteq> [] \<and> list_all is_digit ds
                   then Some (if neg then - int (decimal ds) else int (decimal ds))
                   else None)
          else None)"

definition scale :: "rat \<Rightarrow> int \<Rightarrow> rat" where
  "scale m e = (if 0 \<le> e then m * 10 ^ nat e else m / 10 ^ nat (- e))"

definition parse_number :: "js_string \<Rightarrow> rat option" where
  "parse_number s =
     (let neg = (s \<noteq> [] \<and> hd s = 0x2D);
          s1 = (if neg then tl s else s);
          ip = takeWhile is_digit s1
      in if ip = [] \<or> (1 < length ip \<and> hd ip = 0x30) then None
         else (case fraction (dropWhile is_digit s1) of
                 None \<Rightarrow> None
               | Some (fp, s3) \<Rightarrow>
                   (case exponent s3 of
                      None \<Rightarrow> None
                    | Some e \<Rightarrow>
                        Some (scale (of_nat (decimal (ip @ fp)) * (if neg then - 1 else 1))
                                (e - int (length fp))))))"

definition json_space :: "16 word \<Rightarrow> bool" where
  "json_space c \<longleftrightarrow> c \<in> {0x9, 0xA, 0xD, 0x20}"

definition number_char :: "16 word \<Rightarrow> bool" where
  "number_char c \<longleftrightarrow> is_digit c \<or> c \<in> {0x2B, 0x2D, 0x2E, 0x45, 0x65}"

definition word_char :: "16 word \<Rightarrow> bool" where
  "word_char c \<longleftrightarrow> 0x61 \<le> c \<and> c \<le> 0x7A"

definition punct :: "16 word \<Rightarrow> token option" where
  "punct c =
     (if c = 0x7B then Some LBrace else if c = 0x7D then Some RBrace
      else if c = 0x5B then Some LBrack else if c = 0x5D then Some RBrack
      else if c = 0x3A then Some Colon else if c = 0x2C then Some Comma
      else None)"

definition word_token :: "js_string \<Rightarrow> token option" where
  "word_token w =
     (if w = js ''true'' then Some TTrue else if w = js ''false'' then Some TFalse
      else if w = js ''null'' then Some TNull else None)"

definition unescape :: "16 word \<Rightarrow> 16 word option" where
  "unescape c =
     (if c = 0x22 \<or> c = 0x5C \<or> c = 0x2F then Some c
      else if c = 0x62 then Some 0x8 else if c = 0x66 then Some 0xC
      else if c = 0x6E then Some 0xA else if c = 0x72 then Some 0xD
      else if c = 0x74 then Some 0x9 else None)"

datatype lex_mode =
    Idle
  | In_string js_string
  | In_escape js_string
  | In_hex js_string "nat list"
  | In_number js_string
  | In_word js_string

definition idle_step :: "token list \<Rightarrow> 16 word \<Rightarrow> (lex_mode \<times> token list) option" where
  "idle_step ts c =
     (if json_space c then Some (Idle, ts)
      else if c = 0x22 then Some (In_string [], ts)
      else if c = 0x2D \<or> is_digit c then Some (In_number [c], ts)
      else if word_char c then Some (In_word [c], ts)
      else (case punct c of Some t \<Rightarrow> Some (Idle, ts @ [t]) | None \<Rightarrow> None))"

fun flush :: "lex_mode \<Rightarrow> token list \<Rightarrow> token list option" where
  "flush Idle ts = Some ts"
| "flush (In_number s) ts = map_option (\<lambda>n. ts @ [TNum n]) (parse_number s)"
| "flush (In_word w) ts = map_option (\<lambda>t. ts @ [t]) (word_token w)"
| "flush m ts = None"

fun lex_step :: "lex_mode \<times> token list \<Rightarrow> 16 word \<Rightarrow> (lex_mode \<times> token list) option" where
  "lex_step (Idle, ts) c = idle_step ts c"
| "lex_step (In_string s, ts) c =
     (if c = 0x22 then Some (Idle, ts @ [TStr s])
      else if c = 0x5C then Some (In_escape s, ts)
      else if c < 0x20 then None
      else Some (In_string (s @ [c]), ts))"
| "lex_step (In_escape s, ts) c =
     (if c = 0x75 then Some (In_hex s [], ts)
      else map_option (\<lambda>d. (In_string (s @ [d]), ts)) (unescape c))"
| "lex_step (In_hex s ds, ts) c =
     (case hex_val c of
        None \<Rightarrow> None
      | Some d \<Rightarrow>
          if length ds = 3
          then Some (In_string (s @ [of_nat (foldl (\<lambda>n h. 16 * n + h) 0 (ds @ [d]))]), ts)
          else Some (In_hex s (ds @ [d]), ts))"
| "lex_step (In_number s, ts) c =
     (if number_char c then Some (In_number (s @ [c]), ts)
      else (case flush (In_number s) ts of None \<Rightarrow> None | Some ts' \<Rightarrow> idle_step ts' c))"
| "lex_step (In_word w, ts) c =
     (if word_char c then Some (In_word (w @ [c]), ts)
      else (case flush (In_word w) ts of None \<Rightarrow> None | Some ts' \<Rightarrow> idle_step ts' c))"

fun run :: "('s \<Rightarrow> 'a \<Rightarrow> 's option) \<Rightarrow> 's \<Rightarrow> 'a list \<Rightarrow> 's option" where
  "run step s [] = Some s"
| "run step s (x # xs) = (case step s x of None \<Rightarrow> None | Some s' \<Rightarrow> run step s' xs)"

definition lex :: "js_string \<Rightarrow> token list option" where
  "lex s = (case run lex_step (Idle, []) s of None \<Rightarrow> None | Some (m, ts) \<Rightarrow> flush m ts)"

text \<open>
  The parser. A frame is an array or object whose next element is being read; the mode
  says what may come next. A member whose key is already present replaces the value
  of that key.
\<close>

datatype frame =
    Arr_frame "js_value list"
  | Obj_frame "(js_string \<times> js_value) list" js_string

datatype parse_mode =
    Want_value
  | Arr_first
  | Arr_next "js_value list"
  | Obj_first
  | Obj_key "(js_string \<times> js_value) list"
  | Obj_colon "(js_string \<times> js_value) list" js_string
  | Obj_next "(js_string \<times> js_value) list"
  | Done js_value

fun put :: "js_string \<Rightarrow> js_value \<Rightarrow> (js_string \<times> js_value) list \<Rightarrow> (js_string \<times> js_value) list" where
  "put k v [] = [(k, v)]"
| "put k v (p # ps) = (if fst p = k then (k, v) # ps else p # put k v ps)"

fun complete :: "js_value \<Rightarrow> frame list \<Rightarrow> parse_mode \<times> frame list" where
  "complete v [] = (Done v, [])"
| "complete v (Arr_frame vs # st) = (Arr_next (vs @ [v]), st)"
| "complete v (Obj_frame kvs k # st) = (Obj_next (put k v kvs), st)"

fun value_start :: "token \<Rightarrow> frame list \<Rightarrow> (parse_mode \<times> frame list) option" where
  "value_start (TStr s) st = Some (complete (JStr s) st)"
| "value_start (TNum n) st = Some (complete (JNum n) st)"
| "value_start TTrue st = Some (complete (JBool True) st)"
| "value_start TFalse st = Some (complete (JBool False) st)"
| "value_start TNull st = Some (complete JNull st)"
| "value_start LBrack st = Some (Arr_first, st)"
| "value_start LBrace st = Some (Obj_first, st)"
| "value_start t st = None"

fun parse_step :: "parse_mode \<times> frame list \<Rightarrow> token \<Rightarrow> (parse_mode \<times> frame list) option" where
  "parse_step (Want_value, st) t = value_start t st"
| "parse_step (Arr_first, st) RBrack = Some (complete (JArr []) st)"
| "parse_step (Arr_first, st) t = value_start t (Arr_frame [] # st)"
| "parse_step (Arr_next vs, st) Comma = Some (Want_value, Arr_frame vs # st)"
| "parse_step (Arr_next vs, st) RBrack = Some (complete (JArr vs) st)"
| "parse_step (Obj_first, st) RBrace = Some (complete (JObj []) st)"
| "parse_step (Obj_first, st) (TStr k) = Some (Obj_colon [] k, st)"
| "parse_step (Obj_key kvs, st) (TStr k) = Some (Obj_colon kvs k, st)"
| "parse_step (Obj_colon kvs k, st) Colon = Some (Want_value, Obj_frame kvs k # st)"
| "parse_step (Obj_next kvs, st) Comma = Some (Obj_key kvs, st)"
| "parse_step (Obj_next kvs, st) RBrace = Some (complete (JObj kvs) st)"
| "parse_step s t = None"

definition JSON_parse :: "js_string \<Rightarrow> js_value option" where
  "JSON_parse s =
     (case lex s of
        None \<Rightarrow> None
      | Some ts \<Rightarrow>
          (case run parse_step (Want_value, []) ts of
             Some (Done v, []) \<Rightarrow> Some v
           | _ \<Rightarrow> None))"

section \<open>The handlers\<close>

text \<open>
  A response is a status code and a JSON body. The bodies the handlers send are
  \<open>{error: m}\<close>, \<open>{success: false, error: e.message}\<close>,
  \<open>{success: true, order: o, message: "Multiple items saved successfully!"}\<close> and
  \<open>{success: true, orders: rs}\<close>.
\<close>

record order =
  id' :: nat
  datetime :: js_value
  item :: js_value
  quantity :: js_value
  unit :: js_value
  price :: js_value
  total_price :: js_value
  customer_name :: js_value
  status :: js_value
  payment_mode :: js_value

datatype res_body =
    Error_only js_string
  | Failure js_error
  | Saved js_value
  | Orders "order list"

record response =
  code :: nat
  payload :: res_body

subsection \<open>\<open>POST /orders\<close>\<close>

text \<open>
  What a request meets outside the program: the parser of the runtime, the completion
  service, the credential lookup \<open>auth.getClient()\<close>, the clock read by
  \<open>new Date().toLocaleString()\<close> for the i-th row, and the spreadsheet's answer to
  the batch append.
\<close>

record world =
  json_parse :: "js_string \<Rightarrow> js_value option"
  completion :: "nat \<Rightarrow> reply"
  client :: "js_error option"
  now :: "nat \<Rightarrow> js_string"
  append_rows :: "js_value list list \<Rightarrow> js_error option"

text \<open>The callback of \<open>orderData.items.map\<close>: one row for one item.\<close>

definition row_of :: "js_string \<Rightarrow> js_value \<Rightarrow> js_value \<Rightarrow> js_error + js_value list" where
  "row_of stamp orderData it =
     (if nullish it then Inl Type_error
      else Inr [JStr stamp,
                property it (js ''item''),
                property it (js ''quantity''),
                property it (js ''unit''),
                property it (js ''price''),
                property it (js ''total_price''),
                property orderData (js ''customer_name''),
                JStr (js ''Pending''),
                property it (js ''payment_mode'')])"

fun values_of :: "(nat \<Rightarrow> js_string) \<Rightarrow> js_value \<Rightarrow> nat \<Rightarrow> js_value list
    \<Rightarrow> js_error + js_value list list" where
  "values_of clock orderData i [] = Inr []"
| "values_of clock orderData i (it # its) =
     (case row_of (clock i) orderData it of
        Inl e \<Rightarrow> Inl e
      | Inr r \<Rightarrow>
          (case values_of clock orderData (i + 1) its of
             Inl e \<Rightarrow> Inl e
           | Inr rs \<Rightarrow> Inr (r # rs)))"

definition post_orders :: "world \<Rightarrow> js_value \<Rightarrow> response \<times> event list" where
  "post_orders w reqBody =
     (if nullish reqBody then (\<lparr>code = 500, payload = Failure Type_error\<rparr>, [])
      else
        let message = property reqBody (js ''message'') in
        if \<not> truthy message
        then (\<lparr>code = 400, payload = Error_only (js ''Missing order message'')\<rparr>, [])
        else
          (case extractOrder (json_parse w) (completion w) message of
             (Inl e, tr) \<Rightarrow> (\<lparr>code = 500, payload = Failure e\<rparr>, tr)
           | (Inr orderData, tr) \<Rightarrow>
               if \<not> truthy orderData \<or> \<not> truthy (property orderData (js ''items''))
                  \<or> \<not> isArray (property orderData (js ''items''))
               then (\<lparr>code = 500,
                      payload = Error_only (js ''Failed to parse message into multiple items'')\<rparr>,
                     tr)
               else
                 (case client w of
                    Some e \<Rightarrow> (\<lparr>code = 500, payload = Failure e\<rparr>, tr @ [GetClient])
                  | None \<Rightarrow>
                      (case values_of (now w) orderData 0
                              (elements (property orderData (js ''items''))) of
                         Inl e \<Rightarrow> (\<lparr>code = 500, payload = Failure e\<rparr>, tr @ [GetClient])
                       | Inr values \<Rightarrow>
                           (case append_rows w values of
                              Some e \<Rightarrow>
                                (\<lparr>code = 500, payload = Failure e\<rparr>,
                                 tr @ [GetClient, Append values])
                            | None \<Rightarrow>
                                (\<lparr>code = 200, payload = Saved orderData\<rparr>,
                                 tr @ [GetClient, Append values]))))))"

subsection \<open>\<open>GET /orders\<close>\<close>

text \<open>\<open>row[i] || ""\<close>: an index behind the end of the row reads \<open>undefined\<close>.\<close>

definition cell :: "js_value list \<Rightarrow> nat \<Rightarrow> js_value" where
  "cell row i = (if i < length row then row ! i else JUndefined)"

definition or_empty :: "js_value \<Rightarrow> js_value" where
  "or_empty v = (if truthy v then v else JStr [])"

definition format_row :: "nat \<Rightarrow> js_value list \<Rightarrow> order" where
  "format_row index row =
     \<lparr>id' = index + 1,
      datetime = or_empty (cell row 1),
      item = or_empty (cell row 2),
      quantity = or_empty (cell row 3),
      unit = or_empty (cell row 4),
      price = or_empty (cell row 5),
      total_price = or_empty (cell row 6),
      customer_name = or_empty (cell row 7),
      status = or_empty (cell row 8),
      payment_mode = or_empty (cell row 9)\<rparr>"

definition formatted :: "js_value list list \<Rightarrow> order list" where
  "formatted rows = map (\<lambda>(index, row). format_row index row) (enumerate 0 (drop 1 rows))"

text \<open>
  The handler, given the outcome of the credential lookup and of the read of the range:
  an error, or \<open>response.data.values\<close>, which is absent for an empty sheet.
\<close>

definition get_orders ::
  "js_error option \<Rightarrow> js_error + js_value list list option \<Rightarrow> response \<times> event list" where
  "get_orders cl fetched =
     (case cl of
        Some e \<Rightarrow> (\<lparr>code = 500, payload = Failure e\<rparr>, [GetClient])
      | None \<Rightarrow>
          (case fetched of
             Inl e \<Rightarrow> (\<lparr>code = 500, payload = Failure e\<rparr>, [GetClient, GetValues])
           | Inr None \<Rightarrow> (\<lparr>code = 200, payload = Orders []\<rparr>, [GetClient, GetValues])
           | Inr (Some rows) \<Rightarrow>
               (if rows = [] then (\<lparr>code = 200, payload = Orders []\<rparr>, [GetClient, GetValues])
                else (\<lparr>code = 200, payload = Orders (formatted rows)\<rparr>,
                      [GetClient, GetValues]))))"

section \<open>Concrete surroundings\<close>

text \<open>
  For evaluation at concrete inputs: a completion service that gives the listed
  replies in order and then a last one for ever, a clock that stands still, and a
  spreadsheet that accepts every append.
\<close>

fun script :: "reply list \<Rightarrow> reply \<Rightarrow> nat \<Rightarrow> reply" where
  "script [] d n = d"
| "script (r # rs) d 0 = r"
| "script (r # rs) d (Suc n) = script rs d n"

definition still :: "js_string \<Rightarrow> nat \<Rightarrow> js_string" where
  "still stamp i = stamp"

definition accepting :: "js_value list list \<Rightarrow> js_error option" where
  "accepting values = None"

definition world_of :: "reply list \<Rightarrow> reply \<Rightarrow> js_string \<Rightarrow> world" where
  "world_of rs d stamp =
     \<lparr>json_parse = JSON_parse, completion = script rs d, client = None,
      now = still stamp, append_rows = accepting\<rparr>"

section \<open>The retry loop\<close>

lemma attempt_rate_limited:
  "rate_limited r \<Longrightarrow> \<exists>e. attempt parse r = Inl e \<and> error_status e = Some 429"
  by (cases r) (auto simp: rate_limited_def attempt_def)

lemma loop_step_retry:
  assumes "attempts < 3" and "attempt parse (svc (calls tr)) = Inl e"
    and "error_status e = Some 429"
  shows "extract_loop parse svc attempts tr
           = extract_loop parse svc (attempts + 1) (tr @ [Generate, Sleep 5000])"
  using assms by (subst extract_loop.simps) simp

lemma loop_step_throw:
  assumes "attempts < 3" and "attempt parse (svc (calls tr)) = Inl e"
    and "error_status e \<noteq> Some 429"
  shows "extract_loop parse svc attempts tr = (Inl e, tr @ [Generate])"
  using assms by (subst extract_loop.simps) simp

lemma loop_step_return:
  assumes "attempts < 3" and "attempt parse (svc (calls tr)) = Inr v"
  shows "extract_loop parse svc attempts tr = (Inr v, tr @ [Generate])"
  using assms by (subst extract_loop.simps) simp

lemma loop_exit:
  "\<not> attempts < 3 \<Longrightarrow> extract_loop parse svc attempts tr = (Inl Exhausted, tr)"
  by (subst extract_loop.simps) simp

lemma calls_simps [simp]:
  "calls [] = 0"
  "calls (tr @ [Generate]) = Suc (calls tr)"
  "calls (tr @ [Generate, Sleep n]) = Suc (calls tr)"
  by (simp_all add: calls_def)

text \<open>
  Claim C3. When every call of the completion service is answered with the rate-limit
  signal, \<open>extractOrder\<close> calls the service exactly three times, pauses 5000 ms
  after each of the calls (so between any two of them), and then throws the
  exhaustion error.
\<close>

theorem rate_limit_exhausts_after_three_calls:
  assumes "\<not> throws_on_ToString message" and "\<forall>n<3. rate_limited (svc n)"
  shows "extractOrder parse svc message
           = (Inl Exhausted,
              [Generate, Sleep 5000, Generate, Sleep 5000, Generate, Sleep 5000])"
proof -
  have "rate_limited (svc 0)" "rate_limited (svc (Suc 0))" "rate_limited (svc (Suc (Suc 0)))"
    using assms(2) by simp_all
  then obtain e0 e1 e2 where
    e0: "attempt parse (svc 0) = Inl e0" "error_status e0 = Some 429" and
    e1: "attempt parse (svc (Suc 0)) = Inl e1" "error_status e1 = Some 429" and
    e2: "attempt parse (svc (Suc (Suc 0))) = Inl e2" "error_status e2 = Some 429"
    using attempt_rate_limited by metis
  have "extract_loop parse svc 0 [] = extract_loop parse svc (Suc 0) [Generate, Sleep 5000]"
    using loop_step_retry [of 0 parse svc "[]" e0] e0 by simp
  also have "\<dots> = extract_loop parse svc (Suc (Suc 0))
      [Generate, Sleep 5000, Generate, Sleep 5000]"
    using loop_step_retry [of "Suc 0" parse svc "[Generate, Sleep 5000]" e1] e1
    by (simp add: calls_def)
  also have "\<dots> = extract_loop parse svc (Suc (Suc (Suc 0)))
      [Generate, Sleep 5000, Generate, Sleep 5000, Generate, Sleep 5000]"
    using loop_step_retry
      [of "Suc (Suc 0)" parse svc "[Generate, Sleep 5000, Generate, Sleep 5000]" e2] e2
    by (simp add: calls_def)
  also have "\<dots> = (Inl Exhausted,
      [Generate, Sleep 5000, Generate, Sleep 5000, Generate, Sleep 5000])"
    by (simp add: loop_exit)
  finally show ?thesis using assms(1) by (simp add: extractOrder_def)
qed

theorem rate_limit_exhausts_witness:
  "extractOrder JSON_parse (script [] (Rejects (Api_error (Some 429) (js ''quota''))))
       (JStr (js ''2 kg chicken''))
     = (Inl Exhausted, [Generate, Sleep 5000, Generate, Sleep 5000, Generate, Sleep 5000])"
  using rate_limit_exhausts_after_three_calls
    [of "JStr (js ''2 kg chicken'')"
        "script [] (Rejects (Api_error (Some 429) (js ''quota'')))" JSON_parse]
  by (simp add: rate_limited_def)

text \<open>
  Claim C6. When the first call fails with an error that is not the rate-limit signal,
  \<open>extractOrder\<close> throws that very error after this one call and without a pause.
  This covers a rejection of the service with another status, a completion text whose
  cleansed candidate the parser refuses (the SyntaxError), and a response without a
  text (the TypeError).
\<close>

theorem other_error_fails_at_once:
  assumes "\<not> throws_on_ToString message"
  shows "(\<forall>e. svc 0 = Rejects e \<and> error_status e \<noteq> Some 429
            \<longrightarrow> extractOrder parse svc message = (Inl e, [Generate]))
       \<and> (\<forall>raw. svc 0 = Resolves (Some raw) \<and> parse (cleanJson raw) = None
            \<longrightarrow> extractOrder parse svc message = (Inl Syntax_error, [Generate]))
       \<and> (svc 0 = Resolves None
            \<longrightarrow> extractOrder parse svc message = (Inl Type_error, [Generate]))"
  using assms loop_step_throw [of 0 parse svc "[]"]
  by (auto simp: extractOrder_def attempt_def)

lemma unparsable_text: "JSON_parse (cleanJson (js ''Sorry, I found no order.'')) = None"
  by code_simp

theorem other_error_witness:
  "extractOrder JSON_parse (script [] (Rejects (Api_error (Some 500) (js ''down''))))
       (JStr (js ''2 kg chicken''))
     = (Inl (Api_error (Some 500) (js ''down'')), [Generate])
   \<and> extractOrder JSON_parse (script [] (Resolves (Some (js ''Sorry, I found no order.''))))
       (JStr (js ''2 kg chicken''))
     = (Inl Syntax_error, [Generate])"
  using other_error_fails_at_once
      [of "JStr (js ''2 kg chicken'')"
          "script [] (Rejects (Api_error (Some 500) (js ''down'')))" JSON_parse]
    other_error_fails_at_once
      [of "JStr (js ''2 kg chicken'')"
          "script [] (Resolves (Some (js ''Sorry, I found no order.'')))" JSON_parse]
    unparsable_text
  by simp

lemma second_reply_parsed:
  assumes "\<not> throws_on_ToString message"
    and "rate_limited (svc 0)"
    and "svc 1 = Resolves (Some raw)" and "parse (cleanJson raw) = Some v"
  shows "extractOrder parse svc message = (Inr v, [Generate, Sleep 5000, Generate])"
proof -
  obtain e0 where e0: "attempt parse (svc 0) = Inl e0" "error_status e0 = Some 429"
    using assms(2) attempt_rate_limited by blast
  have "extract_loop parse svc 0 [] = extract_loop parse svc (Suc 0) [Generate, Sleep 5000]"
    using loop_step_retry [of 0 parse svc "[]" e0] e0 by simp
  also have "\<dots> = (Inr v, [Generate, Sleep 5000, Generate])"
    using loop_step_return [of "Suc 0" parse svc "[Generate, Sleep 5000]" v] assms(3,4)
    by (simp add: calls_def attempt_def)
  finally show ?thesis using assms(1) by (simp add: extractOrder_def)
qed

lemma second_reply_unparsable:
  assumes "\<not> throws_on_ToString message"
    and "rate_limited (svc 0)"
    and "svc 1 = Resolves (Some raw)" and "parse (cleanJson raw) = None"
  shows "extractOrder parse svc message
           = (Inl Syntax_error, [Generate, Sleep 5000, Generate])"
proof -
  obtain e0 where e0: "attempt parse (svc 0) = Inl e0" "error_status e0 = Some 429"
    using assms(2) attempt_rate_limited by blast
  have "extract_loop parse svc 0 [] = extract_loop parse svc (Suc 0) [Generate, Sleep 5000]"
    using loop_step_retry [of 0 parse svc "[]" e0] e0 by simp
  also have "\<dots> = (Inl Syntax_error, [Generate, Sleep 5000, Generate])"
    using loop_step_throw [of "Suc 0" parse svc "[Generate, Sleep 5000]" Syntax_error]
      assms(3,4)
    by (simp add: calls_def attempt_def)
  finally show ?thesis using assms(1) by (simp add: extractOrder_def)
qed

lemma loop_bound:
  "attempts \<le> 3
     \<Longrightarrow> calls (snd (extract_loop parse svc attempts tr)) + attempts \<le> calls tr + 3"
proof (induction parse svc attempts tr rule: extract_loop.induct)
  case (1 parse svc attempts tr)
  show ?case
  proof (cases "attempts < 3")
    case False
    then show ?thesis using 1(2) by (simp add: loop_exit)
  next
    case True
    show ?thesis
    proof (cases "attempt parse (svc (calls tr))")
      case (Inr v)
      then show ?thesis using True by (simp add: loop_step_return)
    next
      case (Inl e)
      show ?thesis
      proof (cases "error_status e = Some 429")
        case False
        then show ?thesis using True Inl by (simp add: loop_step_throw)
      next
        case r: True
        have "calls (snd (extract_loop parse svc (attempts + 1) (tr @ [Generate, Sleep 5000])))
                + (attempts + 1)
                \<le> calls (tr @ [Generate, Sleep 5000]) + 3"
          using 1(1) [OF True Inl r] True by simp
        then show ?thesis using True Inl r by (simp add: loop_step_retry)
      qed
    qed
  qed
qed

text \<open>
  Claim C10. \<open>extractOrder\<close> is a total function of the outcomes of the service: the
  loop is defined by recursion on \<open>3 - attempts\<close>, a rate-limited pass raising
  \<open>attempts\<close> and every other pass leaving the loop. Whatever the service
  answers, at most three calls are made, and then a value or an error comes back.
\<close>

theorem extractOrder_at_most_three_calls:
  "calls (snd (extractOrder parse svc message)) \<le> 3
   \<and> ((\<exists>v. fst (extractOrder parse svc message) = Inr v)
      \<or> (\<exists>e. fst (extractOrder parse svc message) = Inl e))"
proof
  show "calls (snd (extractOrder parse svc message)) \<le> 3"
    using loop_bound [of 0 parse svc "[]"] by (simp add: extractOrder_def)
  show "(\<exists>v. fst (extractOrder parse svc message) = Inr v)
      \<or> (\<exists>e. fst (extractOrder parse svc message) = Inl e)"
    by (cases "fst (extractOrder parse svc message)") simp_all
qed

theorem extractOrder_calls_witness:
  "calls (snd (extractOrder JSON_parse
       (script [] (Rejects (Api_error (Some 429) (js ''quota''))))
       (JStr (js ''2 kg chicken'')))) \<le> 3"
  using extractOrder_at_most_three_calls
    [of JSON_parse "script [] (Rejects (Api_error (Some 429) (js ''quota'')))"
        "JStr (js ''2 kg chicken'')"]
  by blast

section \<open>The parse candidate\<close>

lemma jsonMatch_first_last:
  assumes "lbrace \<notin> set pre" and "rbrace \<notin> set post"
  shows "jsonMatch (pre @ lbrace # mid @ rbrace # post) = Some (lbrace # mid @ [rbrace])"
proof -
  have "dropWhile (\<lambda>c. c \<noteq> lbrace) (pre @ lbrace # mid @ rbrace # post)
          = lbrace # mid @ rbrace # post"
    using assms(1) by (induction pre) auto
  moreover have "dropWhile (\<lambda>c. c \<noteq> rbrace) (rev post @ rbrace # rev mid) = rbrace # rev mid"
    using assms(2) by (induction post rule: rev_induct) auto
  ultimately show ?thesis by (simp add: jsonMatch_def)
qed

lemma jsonMatch_none:
  assumes "lbrace \<notin> set text \<or> rbrace \<notin> set text"
  shows "jsonMatch text = None"
proof (cases "dropWhile (\<lambda>c. c \<noteq> lbrace) text")
  case Nil
  then show ?thesis by (simp add: jsonMatch_def del: dropWhile_eq_Nil_conv)
next
  case (Cons b rest)
  have sub: "set (dropWhile (\<lambda>c. c \<noteq> lbrace) text) \<subseteq> set text"
    by (auto dest: set_dropWhileD)
  have "b = lbrace" using Cons hd_dropWhile [of "\<lambda>c. c \<noteq> lbrace" "text"] by simp
  then have "lbrace \<in> set text" using sub Cons by auto
  then have "rbrace \<notin> set text" using assms by blast
  then have "rbrace \<notin> set rest" using sub Cons by auto
  then show ?thesis using Cons by (simp add: jsonMatch_def)
qed

lemma trim_unchanged:
  assumes "s \<noteq> []" and "\<not> is_space (hd s)" and "\<not> is_space (last s)"
  shows "trim s = s"
proof -
  have "dropWhile is_space s = s" using assms by (simp add: dropWhile_eq_self_iff)
  moreover have "dropWhile is_space (rev s) = rev s"
    using assms by (simp add: dropWhile_eq_self_iff hd_rev)
  ultimately show ?thesis by (simp add: trim_def)
qed

lemma trim_padding:
  assumes "\<forall>c \<in> set ws1. is_space c" and "\<forall>c \<in> set ws2. is_space c"
    and "s \<noteq> []" and "\<not> is_space (hd s)" and "\<not> is_space (last s)"
  shows "trim (ws1 @ s @ ws2) = s"
proof -
  have "dropWhile is_space (ws1 @ s @ ws2) = s @ ws2"
    using assms(1,3,4) by (cases s) (simp_all add: dropWhile_append)
  moreover have "dropWhile is_space (rev ws2 @ rev s) = rev s"
    using assms(2,3,5) by (cases "rev s") (simp_all add: dropWhile_append last_rev hd_rev)
  ultimately show ?thesis by (simp add: trim_def)
qed

lemma remove_all_absent: "\<not> occurs pat xs \<Longrightarrow> remove_all pat xs = xs"
  by (induction pat xs rule: remove_all.induct) auto

lemma occurs_prefix_pattern: "occurs (p @ q) xs \<Longrightarrow> occurs p xs"
proof (induction xs)
  case Nil
  then show ?case by simp
next
  case (Cons x xs)
  show ?case
  proof (cases "take (length (p @ q)) (x # xs) = p @ q")
    case True
    then have "take (length p) (take (length (p @ q)) (x # xs)) = p" by simp
    then have "take (length p) (x # xs) = p" by (simp add: min_def)
    then show ?thesis by simp
  next
    case False
    then show ?thesis using Cons by simp
  qed
qed

lemma remove_all_at_match: "pat \<noteq> [] \<Longrightarrow> remove_all pat (pat @ rest) = remove_all pat rest"
  by (cases pat) simp_all

lemma remove_all_past:
  "\<not> occurs pat (xs @ take (length pat - 1) ys)
     \<Longrightarrow> remove_all pat (xs @ ys) = xs @ remove_all pat ys"
proof (induction xs)
  case Nil
  then show ?case by simp
next
  case (Cons x xs)
  have "take (length pat) ((x # xs) @ take (length pat - 1) ys) = take (length pat) ((x # xs) @ ys)"
    by (cases "length pat") (simp_all add: min_def)
  then have "take (length pat) ((x # xs) @ ys) \<noteq> pat" and "\<not> occurs pat (xs @ take (length pat - 1) ys)"
    using Cons.prems by auto
  then show ?case using Cons.IH by simp
qed

lemma occurs_skip:
  assumes "pat \<noteq> []" and "hd pat \<notin> set ws"
  shows "occurs pat (ws @ ys) = occurs pat ys"
  using assms(2)
proof (induction ws)
  case Nil
  then show ?case by simp
next
  case (Cons w ws)
  have "take (length pat) (w # ws @ ys) \<noteq> pat"
  proof
    assume "take (length pat) (w # ws @ ys) = pat"
    then have "hd pat = w" using assms(1) by (cases pat) auto
    then show False using Cons.prems by simp
  qed
  then show ?case using Cons by simp
qed


lemma take_within:
  assumes "take n (xs @ ys) = pat" and "n \<le> length xs"
  shows "take n xs = pat"
  using assms by simp

lemma take_beyond:
  assumes "\<not> n \<le> length xs"
  shows "set xs \<subseteq> set (take n (xs @ ys))"
  using assms by simp

lemma occurs_behind:
  assumes "\<not> occurs pat (xs @ [c])" and "c \<notin> set pat"
  shows "occurs pat (xs @ c # ys) = occurs pat ys"
  using assms(1)
proof (induction xs)
  case Nil
  have "pat \<noteq> []" using Nil by auto
  then have "take (length pat) (c # ys) \<noteq> pat"
    using assms(2) by (cases pat) auto
  then show ?case by simp
next
  case (Cons x xs)
  have "take (length pat) (x # xs @ c # ys) \<noteq> pat"
  proof
    assume eq: "take (length pat) (x # xs @ c # ys) = pat"
    then have eq': "take (length pat) ((x # xs @ [c]) @ ys) = pat" by simp
    show False
    proof (cases "length pat \<le> length (x # xs @ [c])")
      case True
      then have "take (length pat) (x # xs @ [c]) = pat"
        using take_within [OF eq'] by blast
      then show False using Cons.prems by simp
    next
      case False
      then have "set (x # xs @ [c]) \<subseteq> set (take (length pat) ((x # xs @ [c]) @ ys))"
        by (rule take_beyond)
      then have "c \<in> set pat" using eq' by auto
      then show False using assms(2) by simp
    qed
  qed
  moreover have "\<not> occurs pat (xs @ [c])" using Cons.prems by simp
  ultimately show ?case using Cons.IH by simp
qed

text \<open>An object text: it begins with \<open>{\<close>, ends with \<open>}\<close>.\<close>

lemma fence_facts:
  "fence \<noteq> []" "fence_json \<noteq> []" "hd fence = 0x60" "hd fence_json = 0x60"
  "rbrace \<notin> set fence" "rbrace \<notin> set fence_json"
  "length fence = 3" "length fence_json = 7"
  "\<not> occurs fence [0x60, 0x60]" "\<not> occurs fence_json fence"
  "remove_all fence_json fence = fence" "remove_all fence fence = []"
  by (simp_all add: fence_def fence_json_def js_def rbrace_def)

lemma fence_json_split: "fence_json = fence @ js ''json''"
  by (simp add: fence_def fence_json_def js_def)

lemma no_fence_no_fence_json: "\<not> occurs fence xs \<Longrightarrow> \<not> occurs fence_json xs"
  using occurs_prefix_pattern [of fence "js ''json''" xs] by (auto simp: fence_json_split)

lemma occurs_around_object:
  assumes "pat \<noteq> []" and "hd pat = 0x60" and "rbrace \<notin> set pat"
    and "\<forall>c \<in> set ws1. is_space c" and "\<forall>c \<in> set ws2. is_space c"
    and "j = front @ [rbrace]" and "\<not> occurs pat j"
  shows "occurs pat ((ws1 @ j @ ws2) @ ys) = occurs pat ys"
proof -
  have bt1: "hd pat \<notin> set ws1" and bt2: "hd pat \<notin> set ws2"
    using assms(2,4,5) by (auto simp: is_space_def)
  have "occurs pat (ws1 @ (front @ rbrace # (ws2 @ ys))) = occurs pat (front @ rbrace # (ws2 @ ys))"
    using assms(1) bt1 by (rule occurs_skip)
  also have "\<dots> = occurs pat (ws2 @ ys)"
    using assms(3,6,7) by (intro occurs_behind) simp_all
  also have "\<dots> = occurs pat ys"
    using assms(1) bt2 by (rule occurs_skip)
  finally show ?thesis using assms(6) by simp
qed

lemma strip_unfenced:
  assumes "\<not> occurs fence (trim raw)"
    and "trim raw = lbrace # body @ [rbrace]"
  shows "strip_fences raw = trim raw"
proof -
  have "remove_all fence (remove_all fence_json (trim raw)) = trim raw"
    using assms(1) by (simp add: remove_all_absent no_fence_no_fence_json)
  moreover have "trim (lbrace # body @ [rbrace]) = lbrace # body @ [rbrace]"
    by (rule trim_unchanged) (simp_all add: is_space_def lbrace_def rbrace_def)
  ultimately show ?thesis
    using assms(2) by (simp add: strip_fences_def)
qed

lemma strip_fenced:
  assumes "trim raw = fence_json @ ws1 @ (lbrace # body @ [rbrace]) @ ws2 @ fence"
    and "\<forall>c \<in> set ws1. is_space c" and "\<forall>c \<in> set ws2. is_space c"
    and "\<not> occurs fence (lbrace # body @ [rbrace])"
  shows "strip_fences raw = lbrace # body @ [rbrace]"
proof -
  define j where "j = lbrace # body @ [rbrace]"
  have j: "j = (lbrace # body) @ [rbrace]" and nj: "\<not> occurs fence j"
    using assms(4) by (simp_all add: j_def)
  have a: "\<not> occurs fence_json ((ws1 @ j @ ws2) @ take (length fence_json - 1) fence)"
    using occurs_around_object [OF _ _ _ assms(2,3) j no_fence_no_fence_json [OF nj]]
    by (simp add: fence_facts)
  have "occurs fence ((ws1 @ j @ ws2) @ [0x60, 0x60]) = occurs fence [0x60, 0x60]"
    using assms(2,3) j nj by (intro occurs_around_object) (simp_all add: fence_facts)
  then have b: "\<not> occurs fence ((ws1 @ j @ ws2) @ take (length fence - 1) fence)"
    by (simp add: fence_facts) (simp add: fence_def js_def)
  have "remove_all fence_json (trim raw) = remove_all fence_json ((ws1 @ j @ ws2) @ fence)"
    using assms(1) remove_all_at_match [of fence_json "(ws1 @ j @ ws2) @ fence"]
    by (simp add: fence_facts j_def)
  also have "\<dots> = (ws1 @ j @ ws2) @ fence"
    using remove_all_past [OF a] by (simp add: fence_facts)
  finally have "remove_all fence (remove_all fence_json (trim raw)) = ws1 @ j @ ws2"
    using remove_all_past [OF b] by (simp add: fence_facts)
  moreover have "trim (ws1 @ j @ ws2) = j"
    using assms(2,3)
    by (intro trim_padding) (simp_all add: j_def is_space_def lbrace_def rbrace_def)
  ultimately show ?thesis by (simp add: strip_fences_def j_def)
qed

lemma object_is_candidate: "jsonMatch (lbrace # body @ [rbrace]) = Some (lbrace # body @ [rbrace])"
  using jsonMatch_first_last [of "[]" "[]" body] by simp


lemma first_reply_parsed:
  assumes "\<not> throws_on_ToString message" and "svc 0 = Resolves (Some raw)"
    and "parse (cleanJson raw) = Some v"
  shows "extractOrder parse svc message = (Inr v, [Generate])"
  using assms loop_step_return [of 0 parse svc "[]" v]
  by (simp add: extractOrder_def attempt_def)

lemma candidate_between_braces:
  assumes "strip_fences raw = pre @ lbrace # mid @ rbrace # post"
    and "lbrace \<notin> set pre" and "rbrace \<notin> set post"
  shows "cleanJson raw = lbrace # mid @ [rbrace]"
  using assms jsonMatch_first_last [of pre post mid] by (simp add: cleanJson_def)

lemma candidate_without_braces:
  assumes "lbrace \<notin> set (strip_fences raw) \<or> rbrace \<notin> set (strip_fences raw)"
  shows "cleanJson raw = strip_fences raw"
  using jsonMatch_none [OF assms] by (simp add: cleanJson_def)

lemma candidate_unfenced_object:
  assumes "trim raw = lbrace # body @ [rbrace]" and "\<not> occurs fence (trim raw)"
  shows "cleanJson raw = trim raw"
  using strip_unfenced [OF assms(2,1)] assms(1) object_is_candidate [of body]
  by (simp add: cleanJson_def)

lemma candidate_fenced_object:
  assumes "trim raw = fence_json @ ws1 @ (lbrace # body @ [rbrace]) @ ws2 @ fence"
    and "\<forall>c \<in> set ws1. is_space c" and "\<forall>c \<in> set ws2. is_space c"
    and "\<not> occurs fence (lbrace # body @ [rbrace])"
  shows "cleanJson raw = lbrace # body @ [rbrace]"
  using strip_fenced [OF assms] object_is_candidate [of body]
  by (simp add: cleanJson_def)

lemma array_of_object_text: "JSON_parse (js ''[{}]'') = Some (JArr [JObj []])"
  by code_simp

lemma array_of_object_candidate: "JSON_parse (cleanJson (js ''[{}]'')) = Some (JObj [])"
  by code_simp

text \<open>
  A response that is valid JSON but not an object text: of \<open>[{}]\<close> the candidate
  is \<open>{}\<close>, so the result is the empty object and not the parsed response.
\<close>

theorem unfenced_array_counterexample:
  "JSON_parse (js ''[{}]'') = Some (JArr [JObj []])
   \<and> extractOrder JSON_parse (script [] (Resolves (Some (js ''[{}]''))))
         (JStr (js ''2 kg chicken''))
       = (Inr (JObj []), [Generate])"
  using array_of_object_text array_of_object_candidate
    first_reply_parsed [where parse = JSON_parse and message = "JStr (js ''2 kg chicken'')"
      and svc = "script [] (Resolves (Some (js ''[{}]'')))"]
  by simp

text \<open>
  Claim C5. When the completion text, with the fence markers removed and trimmed,
  holds a piece from its first \<open>{\<close> to its last \<open>}\<close> that the parser accepts,
  \<open>extractOrder\<close> returns exactly the value parsed from that piece, after one call.
  In particular a response that is the text of a JSON object (first code unit \<open>{\<close>,
  last \<open>}\<close>) in which no fence marker occurs yields the value parsed from the object
  text, both on its own and wrapped as fence marker with \<open>json\<close>, white space, the
  object, white space, fence marker. When the stripped text holds no brace, the
  candidate is the whole stripped and trimmed text.
\<close>

theorem cleansed_candidate_is_parsed:
  assumes "\<not> throws_on_ToString message" and "svc 0 = Resolves (Some raw)"
  shows "(\<forall>pre mid post v.
            strip_fences raw = pre @ lbrace # mid @ rbrace # post
            \<and> lbrace \<notin> set pre \<and> rbrace \<notin> set post
            \<and> parse (lbrace # mid @ [rbrace]) = Some v
            \<longrightarrow> extractOrder parse svc message = (Inr v, [Generate]))
       \<and> (\<forall>body v.
            trim raw = lbrace # body @ [rbrace] \<and> \<not> occurs fence (trim raw)
            \<and> parse (trim raw) = Some v
            \<longrightarrow> extractOrder parse svc message = (Inr v, [Generate]))
       \<and> (\<forall>ws1 body ws2 v.
            trim raw = fence_json @ ws1 @ (lbrace # body @ [rbrace]) @ ws2 @ fence
            \<and> (\<forall>c \<in> set ws1. is_space c) \<and> (\<forall>c \<in> set ws2. is_space c)
            \<and> \<not> occurs fence (lbrace # body @ [rbrace])
            \<and> parse (lbrace # body @ [rbrace]) = Some v
            \<longrightarrow> extractOrder parse svc message = (Inr v, [Generate]))
       \<and> (lbrace \<notin> set (strip_fences raw) \<and> rbrace \<notin> set (strip_fences raw)
            \<longrightarrow> cleanJson raw = strip_fences raw)"
proof (intro conjI allI impI)
  fix pre mid post v
  assume h: "strip_fences raw = pre @ lbrace # mid @ rbrace # post
            \<and> lbrace \<notin> set pre \<and> rbrace \<notin> set post
            \<and> parse (lbrace # mid @ [rbrace]) = Some v"
  then have "cleanJson raw = lbrace # mid @ [rbrace]"
    using candidate_between_braces [of raw pre mid post] by blast
  then show "extractOrder parse svc message = (Inr v, [Generate])"
    using h assms first_reply_parsed [where svc = svc and parse = parse and message = message
        and raw = raw and v = v] by simp
next
  fix body v
  assume h: "trim raw = lbrace # body @ [rbrace] \<and> \<not> occurs fence (trim raw)
            \<and> parse (trim raw) = Some v"
  then have "cleanJson raw = trim raw"
    using candidate_unfenced_object [of raw body] by blast
  then have "parse (cleanJson raw) = Some v"
    using h by metis
  then show "extractOrder parse svc message = (Inr v, [Generate])"
    using assms first_reply_parsed [where svc = svc and parse = parse and message = message
        and raw = raw and v = v] by blast
next
  fix ws1 body ws2 v
  assume h: "trim raw = fence_json @ ws1 @ (lbrace # body @ [rbrace]) @ ws2 @ fence
            \<and> (\<forall>c \<in> set ws1. is_space c) \<and> (\<forall>c \<in> set ws2. is_space c)
            \<and> \<not> occurs fence (lbrace # body @ [rbrace])
            \<and> parse (lbrace # body @ [rbrace]) = Some v"
  then have "cleanJson raw = lbrace # body @ [rbrace]"
    using candidate_fenced_object [of raw ws1 body ws2] by blast
  then show "extractOrder parse svc message = (Inr v, [Generate])"
    using h assms first_reply_parsed [where svc = svc and parse = parse and message = message
        and raw = raw and v = v] by simp
next
  assume "lbrace \<notin> set (strip_fences raw) \<and> rbrace \<notin> set (strip_fences raw)"
  then show "cleanJson raw = strip_fences raw"
    using candidate_without_braces [of raw] by blast
qed

lemma fenced_text_shape:
  "trim (js ''```json\<newline>{\"items\":[]}\<newline>```'')
     = fence_json @ [0xA] @ (lbrace # js ''\"items\":[]'' @ [rbrace]) @ [0xA] @ fence"
  by (simp add: trim_def js_def is_space_def fence_def fence_json_def lbrace_def rbrace_def)

lemma fenced_text_clean: "\<not> occurs fence (lbrace # js ''\"items\":[]'' @ [rbrace])"
  by (simp add: js_def fence_def lbrace_def rbrace_def)

lemma fenced_text_value:
  "JSON_parse (lbrace # js ''\"items\":[]'' @ [rbrace]) = Some (JObj [(js ''items'', JArr [])])"
  by code_simp

lemma newline_is_space: "\<forall>c \<in> set [0xA]. is_space c"
  by (simp add: is_space_def)

theorem cleansed_candidate_witness:
  "extractOrder JSON_parse
      (script [] (Resolves (Some (js ''```json\<newline>{\"items\":[]}\<newline>```''))))
      (JStr (js ''nothing today''))
     = (Inr (JObj [(js ''items'', JArr [])]), [Generate])"
proof -
  have a: "\<not> throws_on_ToString (JStr (js ''nothing today''))"
    by simp
  have b: "script [] (Resolves (Some (js ''```json\<newline>{\"items\":[]}\<newline>```''))) 0
             = Resolves (Some (js ''```json\<newline>{\"items\":[]}\<newline>```''))"
    by simp
  note all = cleansed_candidate_is_parsed
    [where parse = JSON_parse and message = "JStr (js ''nothing today'')"
       and svc = "script [] (Resolves (Some (js ''```json\<newline>{\"items\":[]}\<newline>```'')))"
       and raw = "js ''```json\<newline>{\"items\":[]}\<newline>```''", OF a b]
  note fenced_case = all [THEN conjunct2, THEN conjunct2, THEN conjunct1, rule_format,
      of "[0xA]" "js ''\"items\":[]''" "[0xA]" "JObj [(js ''items'', JArr [])]"]
  show ?thesis
    using fenced_case fenced_text_shape newline_is_space fenced_text_clean fenced_text_value
    by blast
qed

section \<open>A retry that succeeds\<close>

lemma embedded_object_text:
  "JSON_parse (js ''{\"items\":[]}'') = Some (JObj [(js ''items'', JArr [])])"
  by code_simp

lemma embedded_object_candidate:
  "JSON_parse (cleanJson (js ''Order: {\"items\":[]} done} ok'')) = None"
  by code_simp

text \<open>
  A second answer that contains valid JSON, the object \<open>{"items":[]}\<close>, followed by
  a further \<open>}\<close>: the candidate runs to the last \<open>}\<close>, is refused by the
  parser, and \<open>extractOrder\<close> throws the SyntaxError after the second call.
\<close>

theorem retry_with_embedded_json_counterexample:
  "JSON_parse (js ''{\"items\":[]}'') = Some (JObj [(js ''items'', JArr [])])
   \<and> extractOrder JSON_parse
         (script [Rejects (Api_error (Some 429) (js ''quota''))]
            (Resolves (Some (js ''Order: {\"items\":[]} done} ok''))))
         (JStr (js ''nothing today''))
       = (Inl Syntax_error, [Generate, Sleep 5000, Generate])"
  using embedded_object_text embedded_object_candidate
    second_reply_unparsable
      [where parse = JSON_parse and message = "JStr (js ''nothing today'')"
         and svc = "script [Rejects (Api_error (Some 429) (js ''quota''))]
                      (Resolves (Some (js ''Order: {\"items\":[]} done} ok'')))"
         and raw = "js ''Order: {\"items\":[]} done} ok''"]
  by (simp add: rate_limited_def)

text \<open>
  Claim C7. A rate-limit signal on the first call and, on the second, a text that,
  with the fence markers removed and trimmed, holds a piece from its first \<open>{\<close> to
  its last \<open>}\<close> that the parser accepts: \<open>extractOrder\<close> returns the value parsed
  from that piece after exactly two calls, with one pause of 5000 ms between them. In
  particular this holds when the second answer is the text of a JSON object (first
  code unit \<open>{\<close>, last \<open>}\<close>) in which no fence marker occurs, on its own or
  wrapped as fence marker with \<open>json\<close>, white space, the object, white space, fence
  marker; and when the stripped text holds no brace and parses as a whole.
\<close>

theorem retry_then_success:
  assumes "\<not> throws_on_ToString message"
    and "rate_limited (svc 0)"
    and "svc 1 = Resolves (Some raw)"
  shows "(\<forall>pre mid post v.
            strip_fences raw = pre @ lbrace # mid @ rbrace # post
            \<and> lbrace \<notin> set pre \<and> rbrace \<notin> set post
            \<and> parse (lbrace # mid @ [rbrace]) = Some v
            \<longrightarrow> extractOrder parse svc message
                  = (Inr v, [Generate, Sleep 5000, Generate]))
       \<and> (\<forall>body v.
            trim raw = lbrace # body @ [rbrace] \<and> \<not> occurs fence (trim raw)
            \<and> parse (trim raw) = Some v
            \<longrightarrow> extractOrder parse svc message
                  = (Inr v, [Generate, Sleep 5000, Generate]))
       \<and> (\<forall>ws1 body ws2 v.
            trim raw = fence_json @ ws1 @ (lbrace # body @ [rbrace]) @ ws2 @ fence
            \<and> (\<forall>c \<in> set ws1. is_space c) \<and> (\<forall>c \<in> set ws2. is_space c)
            \<and> \<not> occurs fence (lbrace # body @ [rbrace])
            \<and> parse (lbrace # body @ [rbrace]) = Some v
            \<longrightarrow> extractOrder parse svc message
                  = (Inr v, [Generate, Sleep 5000, Generate]))
       \<and> (\<forall>v.
            lbrace \<notin> set (strip_fences raw) \<and> rbrace \<notin> set (strip_fences raw)
            \<and> parse (strip_fences raw) = Some v
            \<longrightarrow> extractOrder parse svc message
                  = (Inr v, [Generate, Sleep 5000, Generate]))"
proof (intro conjI allI impI)
  fix pre mid post v
  assume h: "strip_fences raw = pre @ lbrace # mid @ rbrace # post
            \<and> lbrace \<notin> set pre \<and> rbrace \<notin> set post
            \<and> parse (lbrace # mid @ [rbrace]) = Some v"
  then have "cleanJson raw = lbrace # mid @ [rbrace]"
    using candidate_between_braces [of raw pre mid post] by blast
  then have "parse (cleanJson raw) = Some v"
    using h by metis
  then show "extractOrder parse svc message = (Inr v, [Generate, Sleep 5000, Generate])"
    using assms second_reply_parsed [where svc = svc and parse = parse
        and message = message and raw = raw and v = v] by blast
next
  fix body v
  assume h: "trim raw = lbrace # body @ [rbrace] \<and> \<not> occurs fence (trim raw)
            \<and> parse (trim raw) = Some v"
  then have "cleanJson raw = trim raw"
    using candidate_unfenced_object [of raw body] by blast
  then have "parse (cleanJson raw) = Some v"
    using h by metis
  then show "extractOrder parse svc message = (Inr v, [Generate, Sleep 5000, Generate])"
    using assms second_reply_parsed [where svc = svc and parse = parse
        and message = message and raw = raw and v = v] by blast
next
  fix ws1 body ws2 v
  assume h: "trim raw = fence_json @ ws1 @ (lbrace # body @ [rbrace]) @ ws2 @ fence
            \<and> (\<forall>c \<in> set ws1. is_space c) \<and> (\<forall>c \<in> set ws2. is_space c)
            \<and> \<not> occurs fence (lbrace # body @ [rbrace])
            \<and> parse (lbrace # body @ [rbrace]) = Some v"
  then have "cleanJson raw = lbrace # body @ [rbrace]"
    using candidate_fenced_object [of raw ws1 body ws2] by blast
  then have "parse (cleanJson raw) = Some v"
    using h by metis
  then show "extractOrder parse svc message = (Inr v, [Generate, Sleep 5000, Generate])"
    using assms second_reply_parsed [where svc = svc and parse = parse
        and message = message and raw = raw and v = v] by blast
next
  fix v
  assume h: "lbrace \<notin> set (strip_fences raw) \<and> rbrace \<notin> set (strip_fences raw)
            \<and> parse (strip_fences raw) = Some v"
  then have "cleanJson raw = strip_fences raw"
    using candidate_without_braces [of raw] by blast
  then have "parse (cleanJson raw) = Some v"
    using h by metis
  then show "extractOrder parse svc message = (Inr v, [Generate, Sleep 5000, Generate])"
    using assms second_reply_parsed [where svc = svc and parse = parse
        and message = message and raw = raw and v = v] by blast
qed

lemma fenced_order_shape:
  "trim (js ''```json\<newline>{\"customer_name\":\"A\",\"items\":[]}\<newline>```'')
     = fence_json @ [0xA] @ (lbrace # js ''\"customer_name\":\"A\",\"items\":[]'' @ [rbrace])
         @ [0xA] @ fence"
  by (simp add: trim_def js_def is_space_def fence_def fence_json_def lbrace_def rbrace_def)

lemma fenced_order_clean:
  "\<not> occurs fence (lbrace # js ''\"customer_name\":\"A\",\"items\":[]'' @ [rbrace])"
  by (simp add: js_def fence_def lbrace_def rbrace_def)

lemma fenced_order_value:
  "JSON_parse (lbrace # js ''\"customer_name\":\"A\",\"items\":[]'' @ [rbrace])
     = Some (JObj [(js ''customer_name'', JStr (js ''A'')), (js ''items'', JArr [])])"
  by code_simp

theorem retry_then_success_witness:
  "extractOrder JSON_parse
       (script [Rejects (Api_error (Some 429) (js ''quota''))]
          (Resolves (Some (js ''```json\<newline>{\"customer_name\":\"A\",\"items\":[]}\<newline>```''))))
       (JStr (js ''nothing for A''))
     = (Inr (JObj [(js ''customer_name'', JStr (js ''A'')), (js ''items'', JArr [])]),
        [Generate, Sleep 5000, Generate])"
proof -
  have a: "\<not> throws_on_ToString (JStr (js ''nothing for A''))"
    by simp
  have b: "rate_limited
      (script [Rejects (Api_error (Some 429) (js ''quota''))]
         (Resolves (Some (js ''```json\<newline>{\"customer_name\":\"A\",\"items\":[]}\<newline>```'')))
         0)"
    by (simp add: rate_limited_def)
  have c: "script [Rejects (Api_error (Some 429) (js ''quota''))]
         (Resolves (Some (js ''```json\<newline>{\"customer_name\":\"A\",\"items\":[]}\<newline>```'')))
         1
       = Resolves (Some (js ''```json\<newline>{\"customer_name\":\"A\",\"items\":[]}\<newline>```''))"
    by simp
  note all = retry_then_success
    [where parse = JSON_parse and message = "JStr (js ''nothing for A'')"
       and svc = "script [Rejects (Api_error (Some 429) (js ''quota''))]
         (Resolves (Some (js ''```json\<newline>{\"customer_name\":\"A\",\"items\":[]}\<newline>```'')))"
       and raw = "js ''```json\<newline>{\"customer_name\":\"A\",\"items\":[]}\<newline>```''",
     OF a b c]
  note fenced_case = all [THEN conjunct2, THEN conjunct2, THEN conjunct1, rule_format,
      of "[0xA]" "js ''\"customer_name\":\"A\",\"items\":[]''" "[0xA]"
         "JObj [(js ''customer_name'', JStr (js ''A'')), (js ''items'', JArr [])]"]
  show ?thesis
    using fenced_case fenced_order_shape newline_is_space fenced_order_clean fenced_order_value
    by blast
qed

section \<open>Requests to \<open>POST /orders\<close>\<close>

text \<open>
  Claim C8. A request whose body has no \<open>message\<close>, or one that converts to
  false (the empty string, \<open>null\<close>, \<open>false\<close>, 0), is answered with status 400
  and \<open>{error: "Missing order message"}\<close>; nothing is called: neither the
  completion service nor the credential lookup nor the spreadsheet.
\<close>

theorem missing_message_is_refused:
  assumes "\<not> nullish reqBody" and "\<not> truthy (property reqBody (js ''message''))"
  shows "post_orders w reqBody
           = (\<lparr>code = 400, payload = Error_only (js ''Missing order message'')\<rparr>, [])"
  using assms by (simp add: post_orders_def)

theorem missing_message_witness:
  "post_orders (world_of [] (Resolves None) []) (JObj [(js ''message'', JStr [])])
     = (\<lparr>code = 400, payload = Error_only (js ''Missing order message'')\<rparr>, [])
   \<and> post_orders (world_of [] (Resolves None) []) (JObj [])
     = (\<lparr>code = 400, payload = Error_only (js ''Missing order message'')\<rparr>, [])"
  using missing_message_is_refused
      [of "JObj [(js ''message'', JStr [])]" "world_of [] (Resolves None) []"]
    missing_message_is_refused [of "JObj []" "world_of [] (Resolves None) []"]
  by (simp add: nullish_def js_def)

lemma empty_order_text:
  "JSON_parse (cleanJson (js ''{\"customer_name\":\"A\",\"items\":[]}''))
    = Some (JObj [(js ''customer_name'', JStr (js ''A'')), (js ''items'', JArr [])])"
  by code_simp

text \<open>
  The order \<open>{"customer_name":"A","items":[]}\<close>: the handler answers 200 and sends
  one append with no rows.
\<close>

theorem empty_items_counterexample:
  "post_orders
     (world_of [] (Resolves (Some (js ''{\"customer_name\":\"A\",\"items\":[]}'')))
        (js ''1/1/2025, 10:00:00 AM''))
     (JObj [(js ''message'', JStr (js ''nothing for A''))])
   = (\<lparr>code = 200,
       payload = Saved (JObj [(js ''customer_name'', JStr (js ''A'')), (js ''items'', JArr [])])\<rparr>,
      [Generate, GetClient, Append []])"
proof -
  have "extractOrder JSON_parse
     (script [] (Resolves (Some (js ''{\"customer_name\":\"A\",\"items\":[]}''))))
     (JStr (js ''nothing for A''))
    = (Inr (JObj [(js ''customer_name'', JStr (js ''A'')), (js ''items'', JArr [])]), [Generate])"
    using empty_order_text
      first_reply_parsed [where parse = JSON_parse and message = "JStr (js ''nothing for A'')"
        and svc = "script [] (Resolves (Some (js ''{\"customer_name\":\"A\",\"items\":[]}'')))"]
    by simp
  then show ?thesis
    by (simp add: post_orders_def world_of_def nullish_def accepting_def js_def)
qed

text \<open>
  Claim C4. A request whose message extracts to an order with an empty \<open>items\<close>
  array passes the check of \<open>items\<close>, which asks for an array and not for a
  non-empty one. No row is appended: the one batch append that is sent carries the
  empty list of rows, and when the credential lookup and that call succeed the answer
  is status 200 with the order.
\<close>

theorem empty_items_are_accepted:
  assumes "\<not> nullish reqBody" and "truthy (property reqBody (js ''message''))"
    and "extractOrder (json_parse w) (completion w) (property reqBody (js ''message''))
           = (Inr orderData, tr)"
    and "property orderData (js ''items'') = JArr []"
    and "client w = None" and "append_rows w [] = None"
  shows "post_orders w reqBody
           = (\<lparr>code = 200, payload = Saved orderData\<rparr>, tr @ [GetClient, Append []])"
proof -
  have "truthy orderData" using assms(4) by (cases orderData) simp_all
  then show ?thesis using assms by (simp add: post_orders_def)
qed

lemma fenced_empty_order_text:
  "JSON_parse (cleanJson (js ''```json\<newline>{\"customer_name\":\"B\",\"items\":[]}\<newline>```''))
    = Some (JObj [(js ''customer_name'', JStr (js ''B'')), (js ''items'', JArr [])])"
  by code_simp

theorem empty_items_witness:
  "post_orders
     (world_of []
        (Resolves (Some (js ''```json\<newline>{\"customer_name\":\"B\",\"items\":[]}\<newline>```'')))
        (js ''2/1/2025, 9:30:00 AM''))
     (JObj [(js ''message'', JStr (js ''B called, no order yet''))])
   = (\<lparr>code = 200,
       payload = Saved (JObj [(js ''customer_name'', JStr (js ''B'')), (js ''items'', JArr [])])\<rparr>,
      [Generate, GetClient, Append []])"
proof -
  have x: "extractOrder JSON_parse
     (script [] (Resolves (Some (js ''```json\<newline>{\"customer_name\":\"B\",\"items\":[]}\<newline>```''))))
     (JStr (js ''B called, no order yet''))
    = (Inr (JObj [(js ''customer_name'', JStr (js ''B'')), (js ''items'', JArr [])]), [Generate])"
    using fenced_empty_order_text
      first_reply_parsed [where parse = JSON_parse
        and message = "JStr (js ''B called, no order yet'')"
        and svc = "script [] (Resolves (Some (js ''```json\<newline>{\"customer_name\":\"B\",\"items\":[]}\<newline>```'')))"]
    by simp
  show ?thesis
    using x empty_items_are_accepted
      [of "JObj [(js ''message'', JStr (js ''B called, no order yet''))]"
          "world_of []
            (Resolves (Some (js ''```json\<newline>{\"customer_name\":\"B\",\"items\":[]}\<newline>```'')))
            (js ''2/1/2025, 9:30:00 AM'')"
          "JObj [(js ''customer_name'', JStr (js ''B'')), (js ''items'', JArr [])]"
          "[Generate]"]
    by (simp add: world_of_def nullish_def accepting_def js_def)
qed

lemma order_text:
  "JSON_parse (cleanJson (js ''{\"customer_name\":\"A\",\"payment_mode\":\"UPI\",\"items\":[{\"item\":\"chicken\",\"quantity\":2,\"unit\":\"kg\",\"price\":180,\"total_price\":360}]}''))
    = Some (JObj [(js ''customer_name'', JStr (js ''A'')), (js ''payment_mode'', JStr (js ''UPI'')),
        (js ''items'', JArr [JObj [(js ''item'', JStr (js ''chicken'')), (js ''quantity'', JNum 2),
           (js ''unit'', JStr (js ''kg'')), (js ''price'', JNum 180),
           (js ''total_price'', JNum 360)]])])"
  by code_simp

text \<open>
  Claim C2. For an order in the shape the prompt asks for, with \<open>payment_mode\<close>
  beside \<open>customer_name\<close> and \<open>items\<close>, the handler sends one batch append
  with one row per item. The row holds the time stamp, the item's name, quantity,
  unit, price and total price, the order's customer name and \<open>Pending\<close>; its last
  cell is read from the item, \<open>it.payment_mode\<close>, and so is \<open>undefined\<close>
  where the claim has the order's payment mode.
\<close>

theorem append_row_reads_payment_mode_of_item:
  "post_orders
     (world_of []
        (Resolves (Some (js ''{\"customer_name\":\"A\",\"payment_mode\":\"UPI\",\"items\":[{\"item\":\"chicken\",\"quantity\":2,\"unit\":\"kg\",\"price\":180,\"total_price\":360}]}'')))
        (js ''1/1/2025, 10:00:00 AM''))
     (JObj [(js ''message'', JStr (js ''2 kg chicken for A, paid by UPI''))])
   = (\<lparr>code = 200,
       payload = Saved
         (JObj [(js ''customer_name'', JStr (js ''A'')), (js ''payment_mode'', JStr (js ''UPI'')),
           (js ''items'', JArr [JObj [(js ''item'', JStr (js ''chicken'')),
             (js ''quantity'', JNum 2), (js ''unit'', JStr (js ''kg'')), (js ''price'', JNum 180),
             (js ''total_price'', JNum 360)]])])\<rparr>,
      [Generate, GetClient,
       Append [[JStr (js ''1/1/2025, 10:00:00 AM''), JStr (js ''chicken''), JNum 2,
                JStr (js ''kg''), JNum 180, JNum 360, JStr (js ''A''), JStr (js ''Pending''),
                JUndefined]]])"
proof -
  have "extractOrder JSON_parse
     (script [] (Resolves (Some (js ''{\"customer_name\":\"A\",\"payment_mode\":\"UPI\",\"items\":[{\"item\":\"chicken\",\"quantity\":2,\"unit\":\"kg\",\"price\":180,\"total_price\":360}]}''))))
     (JStr (js ''2 kg chicken for A, paid by UPI''))
    = (Inr (JObj [(js ''customer_name'', JStr (js ''A'')), (js ''payment_mode'', JStr (js ''UPI'')),
        (js ''items'', JArr [JObj [(js ''item'', JStr (js ''chicken'')), (js ''quantity'', JNum 2),
           (js ''unit'', JStr (js ''kg'')), (js ''price'', JNum 180),
           (js ''total_price'', JNum 360)]])]),
       [Generate])"
    using order_text
      first_reply_parsed [where parse = JSON_parse
        and message = "JStr (js ''2 kg chicken for A, paid by UPI'')"
        and svc = "script [] (Resolves (Some (js ''{\"customer_name\":\"A\",\"payment_mode\":\"UPI\",\"items\":[{\"item\":\"chicken\",\"quantity\":2,\"unit\":\"kg\",\"price\":180,\"total_price\":360}]}'')))"]
    by simp
  then show ?thesis
    by (simp add: post_orders_def world_of_def nullish_def row_of_def still_def accepting_def
        js_def)
qed

theorem append_row_payment_mode_witness:
  "snd (post_orders
     (world_of []
        (Resolves (Some (js ''{\"customer_name\":\"A\",\"payment_mode\":\"UPI\",\"items\":[{\"item\":\"chicken\",\"quantity\":2,\"unit\":\"kg\",\"price\":180,\"total_price\":360}]}'')))
        (js ''1/1/2025, 10:00:00 AM''))
     (JObj [(js ''message'', JStr (js ''2 kg chicken for A, paid by UPI''))]))
   \<noteq> [Generate, GetClient,
       Append [[JStr (js ''1/1/2025, 10:00:00 AM''), JStr (js ''chicken''), JNum 2,
                JStr (js ''kg''), JNum 180, JNum 360, JStr (js ''A''), JStr (js ''Pending''),
                JStr (js ''UPI'')]]]"
  using append_row_reads_payment_mode_of_item by (simp add: js_def)

section \<open>Requests to \<open>GET /orders\<close>\<close>

lemma formatted_nth:
  "i < length rows - 1 \<Longrightarrow> formatted rows ! i = format_row i (rows ! Suc i)"
  by (simp add: formatted_def nth_enumerate_eq)

lemma absent_cell: "length row \<le> i \<Longrightarrow> or_empty (cell row i) = JStr []"
  by (simp add: or_empty_def cell_def)

text \<open>
  Claim C9. Whatever rows the sheet holds, of whatever lengths, the handler answers
  200 with one record per row behind the header, the i-th record being made from the
  i-th of those rows; a field whose column (1 for \<open>datetime\<close> up to 9 for
  \<open>payment_mode\<close>) lies behind the end of the row is the empty string.
\<close>

theorem short_rows_are_tolerated:
  "get_orders None (Inr (Some rows))
     = (\<lparr>code = 200, payload = Orders (formatted rows)\<rparr>, [GetClient, GetValues])
   \<and> length (formatted rows) = length rows - 1
   \<and> (\<forall>i < length rows - 1. formatted rows ! i = format_row i (rows ! Suc i))
   \<and> (\<forall>index row.
        (length row \<le> 1 \<longrightarrow> datetime (format_row index row) = JStr [])
      \<and> (length row \<le> 2 \<longrightarrow> item (format_row index row) = JStr [])
      \<and> (length row \<le> 3 \<longrightarrow> quantity (format_row index row) = JStr [])
      \<and> (length row \<le> 4 \<longrightarrow> unit (format_row index row) = JStr [])
      \<and> (length row \<le> 5 \<longrightarrow> price (format_row index row) = JStr [])
      \<and> (length row \<le> 6 \<longrightarrow> total_price (format_row index row) = JStr [])
      \<and> (length row \<le> 7 \<longrightarrow> customer_name (format_row index row) = JStr [])
      \<and> (length row \<le> 8 \<longrightarrow> status (format_row index row) = JStr [])
      \<and> (length row \<le> 9 \<longrightarrow> payment_mode (format_row index row) = JStr []))"
proof -
  have a: "get_orders None (Inr (Some rows))
     = (\<lparr>code = 200, payload = Orders (formatted rows)\<rparr>, [GetClient, GetValues])"
    by (simp add: get_orders_def formatted_def)
  have b: "length (formatted rows) = length rows - 1"
    by (simp add: formatted_def)
  have c: "\<forall>i < length rows - 1. formatted rows ! i = format_row i (rows ! Suc i)"
    by (simp add: formatted_nth)
  have d: "\<forall>index row.
        (length row \<le> 1 \<longrightarrow> datetime (format_row index row) = JStr [])
      \<and> (length row \<le> 2 \<longrightarrow> item (format_row index row) = JStr [])
      \<and> (length row \<le> 3 \<longrightarrow> quantity (format_row index row) = JStr [])
      \<and> (length row \<le> 4 \<longrightarrow> unit (format_row index row) = JStr [])
      \<and> (length row \<le> 5 \<longrightarrow> price (format_row index row) = JStr [])
      \<and> (length row \<le> 6 \<longrightarrow> total_price (format_row index row) = JStr [])
      \<and> (length row \<le> 7 \<longrightarrow> customer_name (format_row index row) = JStr [])
      \<and> (length row \<le> 8 \<longrightarrow> status (format_row index row) = JStr [])
      \<and> (length row \<le> 9 \<longrightarrow> payment_mode (format_row index row) = JStr [])"
    by (simp add: format_row_def absent_cell)
  from a b c d show ?thesis by blast
qed

theorem short_rows_witness:
  "get_orders None
     (Inr (Some [[JStr (js ''Date'')], [JStr (js ''1/1/2025''), JStr (js ''chicken'')], []]))
     = (\<lparr>code = 200,
         payload = Orders
           [\<lparr>id' = 1, datetime = JStr (js ''chicken''), item = JStr [], quantity = JStr [],
              unit = JStr [], price = JStr [], total_price = JStr [], customer_name = JStr [],
              status = JStr [], payment_mode = JStr []\<rparr>,
            \<lparr>id' = 2, datetime = JStr [], item = JStr [], quantity = JStr [],
              unit = JStr [], price = JStr [], total_price = JStr [], customer_name = JStr [],
              status = JStr [], payment_mode = JStr []\<rparr>]\<rparr>,
        [GetClient, GetValues])"
  using short_rows_are_tolerated
    [of "[[JStr (js ''Date'')], [JStr (js ''1/1/2025''), JStr (js ''chicken'')], []]"]
  by (simp add: formatted_def format_row_def cell_def or_empty_def js_def)

text \<open>
  Claim C1. A sheet of a header and one data row in the layout of the append path
  (time stamp in column 0, item name in column 1, and so on up to the payment mode in
  column 8): the handler returns one record with \<open>id\<close> 1, whose fields are read
  from the columns 1 to 9, each one place to the right of where the append path puts
  it. The \<open>datetime\<close> is the item name, and the \<open>payment_mode\<close> is empty.
\<close>

theorem read_is_one_column_off:
  "get_orders None
     (Inr (Some
       [[JStr (js ''Date''), JStr (js ''Item''), JStr (js ''Qty''), JStr (js ''Unit''),
         JStr (js ''Price''), JStr (js ''Total''), JStr (js ''Customer''), JStr (js ''Status''),
         JStr (js ''Payment'')],
        [JStr (js ''1/1/2025, 10:00:00 AM''), JStr (js ''chicken''), JStr (js ''2''),
         JStr (js ''kg''), JStr (js ''180''), JStr (js ''360''), JStr (js ''A''),
         JStr (js ''Pending''), JStr (js ''UPI'')]]))
     = (\<lparr>code = 200,
         payload = Orders
           [\<lparr>id' = 1, datetime = JStr (js ''chicken''), item = JStr (js ''2''),
              quantity = JStr (js ''kg''), unit = JStr (js ''180''), price = JStr (js ''360''),
              total_price = JStr (js ''A''), customer_name = JStr (js ''Pending''),
              status = JStr (js ''UPI''), payment_mode = JStr []\<rparr>]\<rparr>,
        [GetClient, GetValues])"
  by (simp add: get_orders_def formatted_def format_row_def cell_def or_empty_def js_def)

end
